theory Spec2Isabelle
  imports Complex_Main
begin

section \<open>Numbers of the page script\<close>

text \<open>
  The script of \<^verbatim>\<open>src/routes/+page.svelte\<close> computes on JavaScript numbers. A number is
  modelled as a finite real, one of the two infinities, or NaN. A finite double is taken
  as the real it denotes and a decimal literal as the decimal it is written as: rounding,
  overflow of a finite operation and the sign of zero are outside this first model. The
  rounding of binary64 is added in a second model of the same computation, further down.
\<close>

datatype number = Fin real | NaN | PosInf | NegInf

fun isFinite :: "number \<Rightarrow> bool" where
  "isFinite (Fin x) = True"
| "isFinite NaN = False"
| "isFinite PosInf = False"
| "isFinite NegInf = False"

text \<open>\<^verbatim>\<open>Math.max\<close> and \<^verbatim>\<open>Math.min\<close> of two arguments: NaN if either is NaN.\<close>

fun Math_max :: "number \<Rightarrow> number \<Rightarrow> number" where
  "Math_max NaN y = NaN"
| "Math_max x NaN = NaN"
| "Math_max PosInf y = PosInf"
| "Math_max x PosInf = PosInf"
| "Math_max NegInf y = y"
| "Math_max x NegInf = x"
| "Math_max (Fin a) (Fin b) = Fin (max a b)"

fun Math_min :: "number \<Rightarrow> number \<Rightarrow> number" where
  "Math_min NaN y = NaN"
| "Math_min x NaN = NaN"
| "Math_min NegInf y = NegInf"
| "Math_min x NegInf = NegInf"
| "Math_min PosInf y = y"
| "Math_min x PosInf = x"
| "Math_min (Fin a) (Fin b) = Fin (min a b)"

text \<open>The operators \<^verbatim>\<open>+\<close>, unary and binary \<^verbatim>\<open>-\<close>, and \<^verbatim>\<open>*\<close>.\<close>

fun js_add :: "number \<Rightarrow> number \<Rightarrow> number" where
  "js_add NaN y = NaN"
| "js_add x NaN = NaN"
| "js_add PosInf NegInf = NaN"
| "js_add NegInf PosInf = NaN"
| "js_add PosInf y = PosInf"
| "js_add x PosInf = PosInf"
| "js_add NegInf y = NegInf"
| "js_add x NegInf = NegInf"
| "js_add (Fin a) (Fin b) = Fin (a + b)"

fun js_neg :: "number \<Rightarrow> number" where
  "js_neg NaN = NaN"
| "js_neg PosInf = NegInf"
| "js_neg NegInf = PosInf"
| "js_neg (Fin a) = Fin (- a)"

definition js_sub :: "number \<Rightarrow> number \<Rightarrow> number" where
  "js_sub x y = js_add x (js_neg y)"

fun js_mul :: "number \<Rightarrow> number \<Rightarrow> number" where
  "js_mul NaN y = NaN"
| "js_mul x NaN = NaN"
| "js_mul (Fin a) (Fin b) = Fin (a * b)"
| "js_mul (Fin a) PosInf = (if a = 0 then NaN else if 0 < a then PosInf else NegInf)"
| "js_mul (Fin a) NegInf = (if a = 0 then NaN else if 0 < a then NegInf else PosInf)"
| "js_mul PosInf (Fin b) = (if b = 0 then NaN else if 0 < b then PosInf else NegInf)"
| "js_mul NegInf (Fin b) = (if b = 0 then NaN else if 0 < b then NegInf else PosInf)"
| "js_mul PosInf PosInf = PosInf"
| "js_mul NegInf NegInf = PosInf"
| "js_mul PosInf NegInf = NegInf"
| "js_mul NegInf PosInf = NegInf"

text \<open>The comparisons \<^verbatim>\<open><\<close> and \<^verbatim>\<open><=\<close>: false as soon as an operand is NaN.\<close>

fun js_less :: "number \<Rightarrow> number \<Rightarrow> bool" where
  "js_less NaN y = False"
| "js_less x NaN = False"
| "js_less (Fin a) (Fin b) = (a < b)"
| "js_less x NegInf = False"
| "js_less NegInf y = True"
| "js_less PosInf y = False"
| "js_less x PosInf = True"

fun js_le :: "number \<Rightarrow> number \<Rightarrow> bool" where
  "js_le NaN y = False"
| "js_le x NaN = False"
| "js_le (Fin a) (Fin b) = (a \<le> b)"
| "js_le NegInf y = True"
| "js_le x PosInf = True"
| "js_le x NegInf = False"
| "js_le PosInf y = False"

text \<open>\<^verbatim>\<open>Math.atan\<close>, \<^verbatim>\<open>Math.sqrt\<close> and \<^verbatim>\<open>Math.pow\<close>. The square root of a negative
  number and a negative base under a fractional exponent are NaN.\<close>

fun Math_atan :: "number \<Rightarrow> number" where
  "Math_atan NaN = NaN"
| "Math_atan PosInf = Fin (pi / 2)"
| "Math_atan NegInf = Fin (- (pi / 2))"
| "Math_atan (Fin x) = Fin (arctan x)"

fun Math_sqrt :: "number \<Rightarrow> number" where
  "Math_sqrt NaN = NaN"
| "Math_sqrt PosInf = PosInf"
| "Math_sqrt NegInf = NaN"
| "Math_sqrt (Fin x) = (if x < 0 then NaN else Fin (sqrt x))"

definition odd_integer :: "real \<Rightarrow> bool" where
  "odd_integer y = (y = of_int \<lfloor>y\<rfloor> \<and> odd \<lfloor>y\<rfloor>)"

fun Math_pow :: "number \<Rightarrow> number \<Rightarrow> number" where
  "Math_pow b NaN = NaN"
| "Math_pow b (Fin y) =
     (if y = 0 then Fin 1
      else case b of
        NaN \<Rightarrow> NaN
      | PosInf \<Rightarrow> (if 0 < y then PosInf else Fin 0)
      | NegInf \<Rightarrow> (if 0 < y then (if odd_integer y then NegInf else PosInf) else Fin 0)
      | Fin x \<Rightarrow>
          (if x = 0 then (if 0 < y then Fin 0 else PosInf)
           else if x < 0 \<and> y \<noteq> of_int \<lfloor>y\<rfloor> then NaN
           else if x < 0 then Fin (x powi \<lfloor>y\<rfloor>)
           else Fin (x powr y)))"
| "Math_pow b PosInf =
     (case b of
        NaN \<Rightarrow> NaN
      | PosInf \<Rightarrow> PosInf
      | NegInf \<Rightarrow> PosInf
      | Fin x \<Rightarrow> (if 1 < \<bar>x\<bar> then PosInf else if \<bar>x\<bar> = 1 then NaN else Fin 0))"
| "Math_pow b NegInf =
     (case b of
        NaN \<Rightarrow> NaN
      | PosInf \<Rightarrow> Fin 0
      | NegInf \<Rightarrow> Fin 0
      | Fin x \<Rightarrow> (if 1 < \<bar>x\<bar> then Fin 0 else if \<bar>x\<bar> = 1 then NaN else PosInf))"

section \<open>The wet-bulb computation\<close>

record range =
  min_r :: number
  max_r :: number

definition TEMPERATURE_RANGE :: range where
  "TEMPERATURE_RANGE = \<lparr>min_r = Fin (- 40), max_r = Fin 60\<rparr>"

definition HUMIDITY_RANGE :: range where
  "HUMIDITY_RANGE = \<lparr>min_r = Fin 0, max_r = Fin 100\<rparr>"

definition clamp :: "number \<Rightarrow> range \<Rightarrow> number" where
  "clamp v r = Math_min (Math_max v (min_r r)) (max_r r)"

text \<open>
  \<^verbatim>\<open>calculateWetBulb\<close>, with the source's early return, its local constants and the
  association of its arithmetic expression (left to right, \<^verbatim>\<open>*\<close> before \<^verbatim>\<open>+\<close> and \<^verbatim>\<open>-\<close>).
\<close>

definition calculateWetBulb :: "number \<Rightarrow> number \<Rightarrow> number" where
  "calculateWetBulb tempCelsius relHumidity =
     (if \<not> isFinite tempCelsius \<or> \<not> isFinite relHumidity then NaN
      else
        let T = clamp tempCelsius TEMPERATURE_RANGE;
            RH = clamp relHumidity HUMIDITY_RANGE;
            rhSqrt = Math_sqrt (js_add RH (Fin 8.313659));
            wetBulb =
              js_sub
                (js_add
                  (js_sub
                    (js_add
                      (js_mul T (Math_atan (js_mul (Fin 0.151977) rhSqrt)))
                      (Math_atan (js_add T RH)))
                    (Math_atan (js_sub RH (Fin 1.676331))))
                  (js_mul
                    (js_mul (Fin 0.00391838) (Math_pow RH (Fin 1.5)))
                    (Math_atan (js_mul (Fin 0.023101) RH))))
                (Fin 4.686035)
        in wetBulb)"

text \<open>
  The Stull expression as the specification writes it, on reals, with \<open>RH^1.5\<close> read as
  the real power.
\<close>

definition stull :: "real \<Rightarrow> real \<Rightarrow> real" where
  "stull T RH =
     T * arctan (0.151977 * sqrt (RH + 8.313659))
     + arctan (T + RH)
     - arctan (RH - 1.676331)
     + 0.00391838 * (RH powr 1.5) * arctan (0.023101 * RH)
     - 4.686035"

section \<open>The computation in binary64\<close>

text \<open>
  The model above computes on exact reals. The strictness of an inequality between two
  results can depend on the rounding of each operation, so the computation is given a
  second time, on the same type of numbers, with binary64 rounding written out.
\<close>

















section \<open>Clamping and the closed form\<close>

lemma clamp_TEMPERATURE_Fin:
  "clamp (Fin t) TEMPERATURE_RANGE = Fin (min (max t (- 40)) 60)"
  by (simp add: clamp_def TEMPERATURE_RANGE_def)

lemma clamp_HUMIDITY_Fin:
  "clamp (Fin h) HUMIDITY_RANGE = Fin (min (max h 0) 100)"
  by (simp add: clamp_def HUMIDITY_RANGE_def)

lemma Math_pow_nonneg:
  "0 \<le> x \<Longrightarrow> 0 < y \<Longrightarrow> Math_pow (Fin x) (Fin y) = Fin (x powr y)"
  by simp

lemma calculateWetBulb_Fin:
  "calculateWetBulb (Fin t) (Fin h) =
     Fin (stull (min (max t (- 40)) 60) (min (max h 0) 100))"
proof -
  have h0: "0 \<le> min (max h 0) 100"
    by simp
  then have "\<not> min (max h 0) 100 + 8.313659 < 0"
    by (simp add: not_less add_nonneg_nonneg)
  then show ?thesis
    unfolding calculateWetBulb_def Let_def clamp_TEMPERATURE_Fin clamp_HUMIDITY_Fin
    by (simp add: Math_pow_nonneg [OF h0] js_sub_def stull_def del: Math_pow.simps)
qed

lemma calculateWetBulb_in_range:
  assumes "- 40 \<le> T" "T \<le> 60" "0 \<le> RH" "RH \<le> 100"
  shows "calculateWetBulb (Fin T) (Fin RH) = Fin (stull T RH)"
  using assms by (simp add: calculateWetBulb_Fin min_def max_def)

lemma isFinite_iff: "isFinite x \<longleftrightarrow> (\<exists>r. x = Fin r)"
  by (cases x) simp_all

text \<open>
  C1. For every finite temperature \<open>T\<close> in \<open>[-40, 60]\<close> and finite relative humidity \<open>RH\<close>
  in \<open>[0, 100]\<close>, \<^verbatim>\<open>calculateWetBulb\<close> returns the Stull expression
  \<open>T * atan (0.151977 * sqrt (RH + 8.313659)) + atan (T + RH) - atan (RH - 1.676331)
  + 0.00391838 * RH^1.5 * atan (0.023101 * RH) - 4.686035\<close>, the arctangent being applied to
  the arguments as they are, with no conversion between degrees and radians.
\<close>

theorem calculateWetBulb_stull:
  assumes "- 40 \<le> T" "T \<le> 60" "0 \<le> RH" "RH \<le> 100"
  shows "calculateWetBulb (Fin T) (Fin RH) =
           Fin (T * arctan (0.151977 * sqrt (RH + 8.313659))
                + arctan (T + RH)
                - arctan (RH - 1.676331)
                + 0.00391838 * (RH powr 1.5) * arctan (0.023101 * RH)
                - 4.686035)
         \<and> calculateWetBulb (Fin T) (Fin RH) = Fin (stull T RH)"
  using calculateWetBulb_in_range [OF assms] by (simp add: stull_def)

theorem calculateWetBulb_stull_witness:
  "(- 40 \<le> (50::real) \<and> (50::real) \<le> 60 \<and> 0 \<le> (99::real) \<and> (99::real) \<le> 100)
   \<and> calculateWetBulb (Fin 50) (Fin 99) = Fin (stull 50 99)
   \<and> calculateWetBulb (Fin 0) (Fin 0) = Fin (stull 0 0)"
  using calculateWetBulb_stull [of 50 99] calculateWetBulb_stull [of 0 0]
  by (simp add: stull_def)

text \<open>
  C2. For every pair of finite inputs, \<^verbatim>\<open>calculateWetBulb\<close> gives the same result on the
  inputs and on the inputs clamped into \<open>[-40, 60]\<close> and \<open>[0, 100]\<close>, that is on
  \<open>min (max T (-40)) 60\<close> and \<open>min (max RH 0) 100\<close>; in particular the result at
  \<open>(100, 60)\<close> is the one at \<open>(60, 60)\<close>, at \<open>(-100, 60)\<close> the one at \<open>(-40, 60)\<close>,
  at \<open>(25, 150)\<close> the one at \<open>(25, 100)\<close> and at \<open>(25, -10)\<close> the one at \<open>(25, 0)\<close>.
\<close>

theorem calculateWetBulb_clamped:
  "(isFinite t \<and> isFinite rh \<longrightarrow>
      calculateWetBulb t rh =
        calculateWetBulb (clamp t TEMPERATURE_RANGE) (clamp rh HUMIDITY_RANGE))
   \<and> calculateWetBulb (Fin T) (Fin RH) =
        calculateWetBulb (Fin (min (max T (- 40)) 60)) (Fin (min (max RH 0) 100))
   \<and> calculateWetBulb (Fin 100) (Fin 60) = calculateWetBulb (Fin 60) (Fin 60)
   \<and> calculateWetBulb (Fin (- 100)) (Fin 60) = calculateWetBulb (Fin (- 40)) (Fin 60)
   \<and> calculateWetBulb (Fin 25) (Fin 150) = calculateWetBulb (Fin 25) (Fin 100)
   \<and> calculateWetBulb (Fin 25) (Fin (- 10)) = calculateWetBulb (Fin 25) (Fin 0)"
proof -
  have fin: "calculateWetBulb (Fin a) (Fin b) =
      calculateWetBulb (Fin (min (max a (- 40)) 60)) (Fin (min (max b 0) 100))" for a b
    by (simp add: calculateWetBulb_Fin)
  have "calculateWetBulb t rh =
      calculateWetBulb (clamp t TEMPERATURE_RANGE) (clamp rh HUMIDITY_RANGE)"
    if "isFinite t" "isFinite rh"
  proof -
    from that obtain a b where "t = Fin a" "rh = Fin b"
      by (auto simp add: isFinite_iff)
    then show ?thesis
      using fin [of a b] by (simp add: clamp_TEMPERATURE_Fin clamp_HUMIDITY_Fin)
  qed
  moreover note fin [of T RH] fin [of 100 60] fin [of "- 100" 60] fin [of 25 150]
    fin [of 25 "- 10"]
  ultimately show ?thesis
    by simp
qed

theorem calculateWetBulb_clamped_witness:
  "isFinite (Fin 1000) \<and> isFinite (Fin (- 5))
   \<and> calculateWetBulb (Fin 1000) (Fin (- 5)) = calculateWetBulb (Fin 60) (Fin 0)"
  using calculateWetBulb_clamped [of "Fin 1000" "Fin (- 5)" 0 0]
  by (simp add: clamp_TEMPERATURE_Fin clamp_HUMIDITY_Fin)

text \<open>
  C3. \<^verbatim>\<open>calculateWetBulb\<close> returns NaN, the marker of an undefined result, exactly when at
  least one of its two arguments is not finite (NaN or an infinity); on finite arguments,
  in range or not, it returns a finite number.
\<close>

theorem calculateWetBulb_NaN_iff:
  "(calculateWetBulb t rh = NaN \<longleftrightarrow> \<not> isFinite t \<or> \<not> isFinite rh)
   \<and> (isFinite t \<and> isFinite rh \<longrightarrow> isFinite (calculateWetBulb t rh))"
proof (cases "isFinite t \<and> isFinite rh")
  case True
  then obtain a b where "t = Fin a" "rh = Fin b"
    by (auto simp add: isFinite_iff)
  then show ?thesis
    by (simp add: calculateWetBulb_Fin)
next
  case False
  then show ?thesis
    by (auto simp add: calculateWetBulb_def)
qed

theorem calculateWetBulb_NaN_iff_witness:
  "calculateWetBulb NaN (Fin 60) = NaN
   \<and> calculateWetBulb (Fin 25) PosInf = NaN
   \<and> calculateWetBulb (Fin 1000) (Fin (- 5)) \<noteq> NaN
   \<and> isFinite (calculateWetBulb (Fin 1000) (Fin (- 5)))"
  using calculateWetBulb_NaN_iff [of NaN "Fin 60"]
    calculateWetBulb_NaN_iff [of "Fin 25" PosInf]
    calculateWetBulb_NaN_iff [of "Fin 1000" "Fin (- 5)"]
  by simp

text \<open>
  C4. For every finite \<open>T\<close> in \<open>[-40, 60]\<close> and finite \<open>RH\<close> in \<open>[0, 100]\<close>,
  \<^verbatim>\<open>calculateWetBulb\<close> returns a finite real number: the function of the model is total,
  so nothing is thrown, and the result is not NaN.
\<close>

theorem calculateWetBulb_finite:
  assumes "- 40 \<le> T" "T \<le> 60" "0 \<le> RH" "RH \<le> 100"
  shows "(\<exists>r. calculateWetBulb (Fin T) (Fin RH) = Fin r)
         \<and> isFinite (calculateWetBulb (Fin T) (Fin RH))
         \<and> calculateWetBulb (Fin T) (Fin RH) \<noteq> NaN"
  by (simp add: calculateWetBulb_in_range [OF assms])

theorem calculateWetBulb_finite_witness:
  "(- 40 \<le> (32::real) \<and> (32::real) \<le> 60 \<and> 0 \<le> (60::real) \<and> (60::real) \<le> 100)
   \<and> isFinite (calculateWetBulb (Fin 32) (Fin 60))"
  using calculateWetBulb_finite [of 32 60] by simp

section \<open>Domains of the partial operations\<close>

text \<open>
  C10. For every pair of finite inputs, the partial operations in \<^verbatim>\<open>calculateWetBulb\<close>
  get arguments in their domain: the clamped humidity \<open>RH\<close> is a finite number in
  \<open>[0, 100]\<close>, so the argument \<open>RH + 8.313659\<close> of the square root is at least
  \<open>8.313659 > 0\<close> and the base \<open>RH\<close> of the power \<open>1.5\<close> is not negative; neither the
  square root nor the power is NaN, and the result is the Stull expression at the clamped
  values.
\<close>

theorem calculateWetBulb_domains:
  assumes "isFinite tempCelsius" and "isFinite relHumidity"
  shows "\<exists>T RH. clamp tempCelsius TEMPERATURE_RANGE = Fin T \<and> - 40 \<le> T \<and> T \<le> 60
           \<and> clamp relHumidity HUMIDITY_RANGE = Fin RH \<and> 0 \<le> RH \<and> RH \<le> 100
           \<and> js_add (clamp relHumidity HUMIDITY_RANGE) (Fin 8.313659) = Fin (RH + 8.313659)
           \<and> 8.313659 \<le> RH + 8.313659 \<and> (0::real) < 8.313659
           \<and> Math_sqrt (js_add (clamp relHumidity HUMIDITY_RANGE) (Fin 8.313659))
               = Fin (sqrt (RH + 8.313659))
           \<and> Math_pow (clamp relHumidity HUMIDITY_RANGE) (Fin 1.5) = Fin (RH powr 1.5)
           \<and> calculateWetBulb tempCelsius relHumidity = Fin (stull T RH)"
proof -
  from assms obtain t h where th: "tempCelsius = Fin t" "relHumidity = Fin h"
    by (auto simp add: isFinite_iff)
  let ?T = "min (max t (- 40)) 60" and ?RH = "min (max h 0) 100"
  have h0: "0 \<le> ?RH"
    by simp
  then have "\<not> ?RH + 8.313659 < 0"
    by (simp add: not_less add_nonneg_nonneg)
  then have "clamp tempCelsius TEMPERATURE_RANGE = Fin ?T \<and> - 40 \<le> ?T \<and> ?T \<le> 60
           \<and> clamp relHumidity HUMIDITY_RANGE = Fin ?RH \<and> 0 \<le> ?RH \<and> ?RH \<le> 100
           \<and> js_add (clamp relHumidity HUMIDITY_RANGE) (Fin 8.313659) = Fin (?RH + 8.313659)
           \<and> 8.313659 \<le> ?RH + 8.313659 \<and> (0::real) < 8.313659
           \<and> Math_sqrt (js_add (clamp relHumidity HUMIDITY_RANGE) (Fin 8.313659))
               = Fin (sqrt (?RH + 8.313659))
           \<and> Math_pow (clamp relHumidity HUMIDITY_RANGE) (Fin 1.5) = Fin (?RH powr 1.5)
           \<and> calculateWetBulb tempCelsius relHumidity = Fin (stull ?T ?RH)"
    unfolding th clamp_TEMPERATURE_Fin clamp_HUMIDITY_Fin calculateWetBulb_Fin
    by (simp add: Math_pow_nonneg [OF h0] del: Math_pow.simps)
  then show ?thesis
    by blast
qed

theorem calculateWetBulb_domains_witness:
  "isFinite (Fin 1000) \<and> isFinite (Fin (- 500))
   \<and> Math_sqrt (js_add (clamp (Fin (- 500)) HUMIDITY_RANGE) (Fin 8.313659)) \<noteq> NaN
   \<and> Math_pow (clamp (Fin (- 500)) HUMIDITY_RANGE) (Fin 1.5) \<noteq> NaN"
proof -
  have "isFinite (Fin 1000)" and "isFinite (Fin (- 500))"
    by simp_all
  from calculateWetBulb_domains [OF this] show ?thesis
    by (auto simp del: Math_pow.simps Math_sqrt.simps js_add.simps)
qed

section \<open>Bounds on the arctangent, the square root and the power\<close>

lemma arctan_ge_cubic:
  fixes x :: real
  assumes "0 \<le> x"
  shows "x - x ^ 3 / 3 \<le> arctan x"
proof -
  let ?f = "\<lambda>t::real. arctan t - (t - t ^ 3 / 3)"
  have "?f 0 \<le> ?f x"
  proof (rule DERIV_nonneg_imp_nondecreasing [OF assms])
    fix t :: real
    have d: "(?f has_real_derivative (inverse (1 + t\<^sup>2) - (1 - t\<^sup>2))) (at t)"
      by (auto intro!: derivative_eq_intros simp: power2_eq_square)
    have "(1 - t\<^sup>2) * (1 + t\<^sup>2) = 1 - (t\<^sup>2)\<^sup>2"
      by (simp add: algebra_simps power2_eq_square)
    then have "(1 - t\<^sup>2) * (1 + t\<^sup>2) \<le> 1"
      by simp
    then have "1 - t\<^sup>2 \<le> inverse (1 + t\<^sup>2)"
      by (simp add: inverse_eq_divide pos_le_divide_eq add_pos_nonneg)
    with d show "\<exists>y. (?f has_real_derivative y) (at t) \<and> 0 \<le> y"
      by (intro exI [of _ "inverse (1 + t\<^sup>2) - (1 - t\<^sup>2)"]) simp
  qed
  then show ?thesis by simp
qed

lemma arctan_le_quintic:
  fixes x :: real
  assumes "0 \<le> x"
  shows "arctan x \<le> x - x ^ 3 / 3 + x ^ 5 / 5"
proof -
  let ?f = "\<lambda>t::real. (t - t ^ 3 / 3 + t ^ 5 / 5) - arctan t"
  have "?f 0 \<le> ?f x"
  proof (rule DERIV_nonneg_imp_nondecreasing [OF assms])
    fix t :: real
    have d: "(?f has_real_derivative ((1 - t\<^sup>2 + t ^ 4) - inverse (1 + t\<^sup>2))) (at t)"
      by (auto intro!: derivative_eq_intros simp: power2_eq_square)
    have "1 \<le> (1 - t\<^sup>2 + t ^ 4) * (1 + t\<^sup>2)"
    proof -
      have "(1 - t\<^sup>2 + t ^ 4) * (1 + t\<^sup>2) = 1 + t ^ 6"
        by (simp add: algebra_simps power2_eq_square power_numeral_reduce)
      then show ?thesis by simp
    qed
    then have "inverse (1 + t\<^sup>2) \<le> 1 - t\<^sup>2 + t ^ 4"
      by (simp add: inverse_eq_divide pos_divide_le_eq add_pos_nonneg)
    with d show "\<exists>y. (?f has_real_derivative y) (at t) \<and> 0 \<le> y"
      by (intro exI [of _ "(1 - t\<^sup>2 + t ^ 4) - inverse (1 + t\<^sup>2)"]) simp
  qed
  then show ?thesis by simp
qed

lemma arctan_diff_le:
  fixes x y :: real
  assumes "0 \<le> y" "y \<le> x"
  shows "arctan x - arctan y \<le> (x - y) / (1 + y\<^sup>2)"
proof -
  let ?f = "\<lambda>t::real. t / (1 + y\<^sup>2) - arctan t"
  have "?f y \<le> ?f x"
  proof (rule DERIV_nonneg_imp_nondecreasing [OF assms(2)])
    fix t :: real
    assume t: "y \<le> t"
    have "0 < 1 + y\<^sup>2"
      by (simp add: add_pos_nonneg)
    then have d: "(?f has_real_derivative (1 / (1 + y\<^sup>2) - inverse (1 + t\<^sup>2))) (at t)"
      by (auto intro!: derivative_eq_intros)
    have "y\<^sup>2 \<le> t\<^sup>2"
      using assms(1) t by (simp add: power_mono)
    then have "inverse (1 + t\<^sup>2) \<le> 1 / (1 + y\<^sup>2)"
      by (simp add: inverse_eq_divide frac_le add_pos_nonneg)
    with d show "\<exists>z. (?f has_real_derivative z) (at t) \<and> 0 \<le> z"
      by (intro exI [of _ "1 / (1 + y\<^sup>2) - inverse (1 + t\<^sup>2)"]) simp
  qed
  then show ?thesis by (simp add: diff_divide_distrib)
qed

lemma arctan_diff_ge:
  fixes x y :: real
  assumes "0 \<le> y" "y \<le> x"
  shows "(x - y) / (1 + x\<^sup>2) \<le> arctan x - arctan y"
proof -
  let ?f = "\<lambda>t::real. arctan t - t / (1 + x\<^sup>2)"
  have "?f y \<le> ?f x"
  proof (rule DERIV_nonneg_imp_nondecreasing [OF assms(2)])
    fix t :: real
    assume t: "y \<le> t" "t \<le> x"
    have "0 < 1 + x\<^sup>2"
      by (simp add: add_pos_nonneg)
    then have d: "(?f has_real_derivative (inverse (1 + t\<^sup>2) - 1 / (1 + x\<^sup>2))) (at t)"
      by (auto intro!: derivative_eq_intros)
    have "t\<^sup>2 \<le> x\<^sup>2"
      using assms(1) t by (simp add: power_mono)
    then have "1 / (1 + x\<^sup>2) \<le> inverse (1 + t\<^sup>2)"
      by (simp add: inverse_eq_divide frac_le add_pos_nonneg)
    with d show "\<exists>z. (?f has_real_derivative z) (at t) \<and> 0 \<le> z"
      by (intro exI [of _ "inverse (1 + t\<^sup>2) - 1 / (1 + x\<^sup>2)"]) simp
  qed
  then show ?thesis by (simp add: diff_divide_distrib)
qed

lemma pi_gt_31405: "3.1405 < pi"
proof -
  have a: "1 / 5 - (1 / 5) ^ 3 / 3 \<le> arctan (1 / 5 :: real)"
    by (rule arctan_ge_cubic) simp
  have b: "arctan (1 / 239 :: real) \<le> 1 / 239 - (1 / 239) ^ 3 / 3 + (1 / 239) ^ 5 / 5"
    by (rule arctan_le_quintic) simp
  have "pi = 4 * (4 * arctan (1 / 5) - arctan (1 / 239))"
    using machin by simp
  with a b show ?thesis
    by (simp add: power3_eq_cube power_numeral_reduce)
qed

lemma pi_lt_31417: "pi < 3.1417"
proof -
  have a: "arctan (1 / 5 :: real) \<le> 1 / 5 - (1 / 5) ^ 3 / 3 + (1 / 5) ^ 5 / 5"
    by (rule arctan_le_quintic) simp
  have b: "1 / 239 - (1 / 239) ^ 3 / 3 \<le> arctan (1 / 239 :: real)"
    by (rule arctan_ge_cubic) simp
  have "pi = 4 * (4 * arctan (1 / 5) - arctan (1 / 239))"
    using machin by simp
  with a b show ?thesis
    by (simp add: power3_eq_cube power_numeral_reduce)
qed

lemma arctan_shift:
  fixes x :: real
  assumes "0 < x"
  shows "arctan x = pi / 4 + arctan ((x - 1) / (x + 1))"
proof -
  let ?y = "(x - 1) / (x + 1)"
  have y: "\<bar>?y\<bar> < 1"
    using assms by (simp add: abs_less_iff field_simps)
  have "arctan 1 + arctan ?y = arctan ((1 + ?y) / (1 - 1 * ?y))"
    by (rule arctan_add) (use y in simp_all)
  moreover have "(1 + ?y) / (1 - 1 * ?y) = x"
    using assms by (simp add: field_simps)
  ultimately show ?thesis
    by (simp add: arctan_one)
qed

lemma arctan_lower:
  fixes x z :: real
  assumes "1 \<le> x" and "z = (x - 1) / (x + 1)"
  shows "3.1405 / 4 + (z - z ^ 3 / 3) \<le> arctan x"
proof -
  have "0 \<le> z"
    using assms by simp
  then have "z - z ^ 3 / 3 \<le> arctan z"
    by (rule arctan_ge_cubic)
  moreover have "arctan x = pi / 4 + arctan z"
    using assms arctan_shift [of x] by simp
  ultimately show ?thesis
    using pi_gt_31405 by simp
qed

lemma arctan_upper:
  fixes x z :: real
  assumes "1 \<le> x" and "z = (x - 1) / (x + 1)"
  shows "arctan x \<le> 3.1417 / 4 + (z - z ^ 3 / 3 + z ^ 5 / 5)"
proof -
  have "0 \<le> z"
    using assms by simp
  then have "arctan z \<le> z - z ^ 3 / 3 + z ^ 5 / 5"
    by (rule arctan_le_quintic)
  moreover have "arctan x = pi / 4 + arctan z"
    using assms arctan_shift [of x] by simp
  ultimately show ?thesis
    using pi_lt_31417 by simp
qed

lemma powr_three_halves:
  fixes x :: real
  assumes "0 \<le> x"
  shows "x powr (3 / 2) = x * sqrt x"
proof (cases "x = 0")
  case True
  then show ?thesis by simp
next
  case False
  with assms have "0 < x" by simp
  have "x powr (3 / 2) = x powr (1 + 1 / 2)"
    by simp
  also have "\<dots> = x powr 1 * x powr (1 / 2)"
    by (rule powr_add)
  also have "\<dots> = x * sqrt x"
    using \<open>0 < x\<close> by (simp add: powr_half_sqrt)
  finally show ?thesis .
qed

lemma sqrt_between:
  fixes x lo hi :: real
  assumes "lo\<^sup>2 \<le> x" and "x \<le> hi\<^sup>2" and "0 \<le> hi"
  shows "lo \<le> sqrt x \<and> sqrt x \<le> hi"
  using assms by (simp add: real_le_rsqrt real_le_lsqrt)

lemma product_between:
  fixes w b :: real
  assumes "wl \<le> w" "w \<le> wu" "bl \<le> b" "b \<le> bu" "0 \<le> wl" "0 \<le> bl"
  shows "wl * bl \<le> w * b \<and> w * b \<le> wu * bu"
proof
  show "wl * bl \<le> w * b"
    using assms by (intro mult_mono) simp_all
  show "w * b \<le> wu * bu"
    using assms by (intro mult_mono) simp_all
qed

lemma arctan_between:
  fixes x :: real
  assumes "1 \<le> lo" "lo \<le> x" "x \<le> hi"
    and "zl = (lo - 1) / (lo + 1)" "zu = (hi - 1) / (hi + 1)"
  shows "3.1405 / 4 + (zl - zl ^ 3 / 3) \<le> arctan x
         \<and> arctan x \<le> 3.1417 / 4 + (zu - zu ^ 3 / 3 + zu ^ 5 / 5)"
proof
  have "3.1405 / 4 + (zl - zl ^ 3 / 3) \<le> arctan lo"
    using assms(1,4) by (rule arctan_lower)
  also have "\<dots> \<le> arctan x"
    using assms(2) by (simp add: arctan_le_iff)
  finally show "3.1405 / 4 + (zl - zl ^ 3 / 3) \<le> arctan x" .
  have "1 \<le> hi"
    using assms(1-3) by simp
  have "arctan x \<le> arctan hi"
    using assms(3) by (simp add: arctan_le_iff)
  also have "\<dots> \<le> 3.1417 / 4 + (zu - zu ^ 3 / 3 + zu ^ 5 / 5)"
    using \<open>1 \<le> hi\<close> assms(5) by (rule arctan_upper)
  finally show "arctan x \<le> 3.1417 / 4 + (zu - zu ^ 3 / 3 + zu ^ 5 / 5)" .
qed

text \<open>The point (32, 60).\<close>

lemma A_32_60:
  "0.8981 \<le> arctan (0.151977 * sqrt (68.313659))
   \<and> arctan (0.151977 * sqrt (68.313659)) \<le> 0.8985"
proof -
  have s: "8.2652 \<le> sqrt (68.313659) \<and> sqrt (68.313659) \<le> (8.2653 :: real)"
    by (rule sqrt_between) (simp_all add: power2_eq_square)
  then have x: "1.2561 \<le> 0.151977 * sqrt (68.313659)"
      "0.151977 * sqrt (68.313659) \<le> (1.2562 :: real)"
    by simp_all
  have "3.1405 / 4 + (2561 / 22561 - (2561 / 22561) ^ 3 / 3)
          \<le> arctan (0.151977 * sqrt (68.313659))
        \<and> arctan (0.151977 * sqrt (68.313659))
          \<le> 3.1417 / 4 + (2562 / 22562 - (2562 / 22562) ^ 3 / 3 + (2562 / 22562) ^ 5 / 5)"
    by (rule arctan_between [OF _ x]) simp_all
  then show ?thesis
    by (simp add: power3_eq_cube power_numeral_reduce)
qed

lemma B_60:
  "0.9455 \<le> arctan (1.38606 :: real) \<and> arctan (1.38606 :: real) \<le> 0.9459"
proof -
  have "3.1405 / 4 + (38606 / 238606 - (38606 / 238606) ^ 3 / 3)
          \<le> arctan (1.38606 :: real)
        \<and> arctan (1.38606 :: real)
          \<le> 3.1417 / 4 + (38606 / 238606 - (38606 / 238606) ^ 3 / 3 + (38606 / 238606) ^ 5 / 5)"
    by (rule arctan_between [of "1.38606" "1.38606" "1.38606"]) simp_all
  then show ?thesis
    by (simp add: power3_eq_cube power_numeral_reduce)
qed

lemma W_60: "464.754 \<le> (60 :: real) powr (3 / 2) \<and> (60 :: real) powr (3 / 2) \<le> 464.76"
proof -
  have "7.7459 \<le> sqrt 60 \<and> sqrt 60 \<le> (7.746 :: real)"
    by (rule sqrt_between) (simp_all add: power2_eq_square)
  then show ?thesis
    by (simp add: powr_three_halves)
qed

lemma D_32_60:
  "0 \<le> arctan (92 :: real) - arctan (58.323669)
   \<and> arctan (92 :: real) - arctan (58.323669) \<le> 0.01"
proof
  show "0 \<le> arctan (92 :: real) - arctan (58.323669)"
    by (simp add: arctan_le_iff)
  have "arctan (92 :: real) - arctan (58.323669) \<le> (92 - 58.323669) / (1 + (58.323669)\<^sup>2)"
    by (rule arctan_diff_le) simp_all
  then show "arctan (92 :: real) - arctan (58.323669) \<le> 0.01"
    by (simp add: power2_eq_square)
qed

lemma stull_32_60: "25.7 \<le> stull 32 60 \<and> stull 32 60 \<le> 25.9"
proof -
  let ?A = "arctan (0.151977 * sqrt (68.313659))"
  let ?D = "arctan (92 :: real) - arctan (58.323669)"
  let ?P = "(60 :: real) powr (3 / 2) * arctan (1.38606)"
  have P: "464.754 * 0.9455 \<le> ?P \<and> ?P \<le> 464.76 * 0.9459"
    using W_60 B_60 by (intro product_between) simp_all
  have eq: "stull 32 60 = 32 * ?A + ?D + 0.00391838 * ?P - 4.686035"
    by (simp add: stull_def)
  show ?thesis
    unfolding eq using A_32_60 D_32_60 P by simp
qed

section \<open>Sampled values\<close>

text \<open>
  C7. The result at \<open>(32, 60)\<close> lies within 1 of \<open>26.5\<close>: it is a finite number \<open>r\<close>
  with \<open>|r - 26.5| \<le> 1\<close>.
\<close>

theorem calculateWetBulb_32_60:
  "\<exists>r. calculateWetBulb (Fin 32) (Fin 60) = Fin r \<and> \<bar>r - 26.5\<bar> \<le> 1"
proof -
  have "calculateWetBulb (Fin 32) (Fin 60) = Fin (stull 32 60)"
    by (rule calculateWetBulb_in_range) simp_all
  moreover have "\<bar>stull 32 60 - 26.5\<bar> \<le> 1"
    using stull_32_60 by (simp add: abs_le_iff)
  ultimately show ?thesis
    by blast
qed

theorem calculateWetBulb_32_60_witness:
  "isFinite (calculateWetBulb (Fin 32) (Fin 60))
   \<and> js_le (Fin 25.5) (calculateWetBulb (Fin 32) (Fin 60))
   \<and> js_le (calculateWetBulb (Fin 32) (Fin 60)) (Fin 27.5)"
  using calculateWetBulb_32_60 by (auto simp add: abs_le_iff)

text \<open>Relative humidity 100.\<close>

lemma A_100:
  "1.0066 \<le> arctan (0.151977 * sqrt (108.313659))
   \<and> arctan (0.151977 * sqrt (108.313659)) \<le> 1.00705"
proof -
  have s: "10.4073 \<le> sqrt (108.313659) \<and> sqrt (108.313659) \<le> (10.4074 :: real)"
    by (rule sqrt_between) (simp_all add: power2_eq_square)
  then have x: "1.5816 \<le> 0.151977 * sqrt (108.313659)"
      "0.151977 * sqrt (108.313659) \<le> (1.5817 :: real)"
    by simp_all
  have "3.1405 / 4 + (5816 / 25816 - (5816 / 25816) ^ 3 / 3)
          \<le> arctan (0.151977 * sqrt (108.313659))
        \<and> arctan (0.151977 * sqrt (108.313659))
          \<le> 3.1417 / 4 + (5817 / 25817 - (5817 / 25817) ^ 3 / 3 + (5817 / 25817) ^ 5 / 5)"
    by (rule arctan_between [OF _ x]) simp_all
  then show ?thesis
    by (simp add: power3_eq_cube power_numeral_reduce)
qed

lemma B_100:
  "1.1602 \<le> arctan (2.3101 :: real) \<and> arctan (2.3101 :: real) \<le> 1.1625"
proof -
  have "3.1405 / 4 + (13101 / 33101 - (13101 / 33101) ^ 3 / 3)
          \<le> arctan (2.3101 :: real)
        \<and> arctan (2.3101 :: real)
          \<le> 3.1417 / 4 + (13101 / 33101 - (13101 / 33101) ^ 3 / 3 + (13101 / 33101) ^ 5 / 5)"
    by (rule arctan_between [of "2.3101" "2.3101" "2.3101"]) simp_all
  then show ?thesis
    by (simp add: power3_eq_cube power_numeral_reduce)
qed

lemma W_100: "(100 :: real) powr (3 / 2) = 1000"
proof -
  have "sqrt (100 :: real) = 10"
    by (rule real_sqrt_unique) simp_all
  then show ?thesis
    by (simp add: powr_three_halves)
qed

lemma D_100:
  fixes T :: real
  assumes "- 40 \<le> T" "T \<le> 60"
  shows "- 0.011 \<le> arctan (T + 100) - arctan (98.323669)
         \<and> arctan (T + 100) - arctan (98.323669) \<le> 0.007"
proof (cases "98.323669 \<le> T + 100")
  case True
  have "arctan (T + 100) - arctan (98.323669) \<le> (T + 100 - 98.323669) / (1 + (98.323669)\<^sup>2)"
    by (rule arctan_diff_le) (use True in simp_all)
  also have "\<dots> \<le> (60 + 100 - 98.323669) / (1 + (98.323669)\<^sup>2)"
    using assms by (intro divide_right_mono) simp_all
  also have "\<dots> \<le> 0.007"
    by (simp add: power2_eq_square)
  finally have "arctan (T + 100) - arctan (98.323669) \<le> 0.007" .
  moreover have "0 \<le> arctan (T + 100) - arctan (98.323669)"
    using True by (simp add: arctan_le_iff)
  ultimately show ?thesis
    by simp
next
  case False
  then have lt: "T + 100 \<le> 98.323669"
    by simp
  have u: "60 \<le> T + 100"
    using assms by simp
  have "arctan (98.323669) - arctan (T + 100) \<le> (98.323669 - (T + 100)) / (1 + (T + 100)\<^sup>2)"
    by (rule arctan_diff_le) (use lt u in simp_all)
  also have "\<dots> \<le> (98.323669 - 60) / (1 + 60\<^sup>2)"
  proof -
    have "(60 :: real)\<^sup>2 \<le> (T + 100)\<^sup>2"
      using u by (intro power_mono) simp_all
    then show ?thesis
      using lt u by (intro frac_le) simp_all
  qed
  also have "\<dots> \<le> 0.011"
    by simp
  finally have "arctan (98.323669) - arctan (T + 100) \<le> 0.011" .
  moreover have "arctan (T + 100) - arctan (98.323669) \<le> 0"
    using lt by (simp add: arctan_le_iff)
  ultimately show ?thesis
    by simp
qed

lemma stull_100:
  fixes T :: real
  assumes "- 40 \<le> T" "T \<le> 60"
  shows "- 0.44 \<le> stull T 100 - T \<and> stull T 100 - T \<le> 0.31"
proof -
  let ?A = "arctan (0.151977 * sqrt (108.313659))"
  let ?D = "arctan (T + 100) - arctan (98.323669)"
  let ?B = "arctan (2.3101 :: real)"
  have eq: "stull T 100 - T = T * (?A - 1) + ?D + 3.91838 * ?B - 4.686035"
    by (simp add: stull_def W_100 algebra_simps)
  have TA: "- 40 * 0.00705 \<le> T * (?A - 1) \<and> T * (?A - 1) \<le> 60 * 0.00705"
  proof (cases "0 \<le> T")
    case True
    have "T * (?A - 1) \<le> 60 * 0.00705"
      using True assms A_100 by (intro mult_mono) simp_all
    moreover have "0 \<le> T * (?A - 1)"
      using True A_100 by (intro mult_nonneg_nonneg) simp_all
    ultimately show ?thesis
      by simp
  next
    case False
    have "(- T) * (?A - 1) \<le> 40 * 0.00705"
      using False assms A_100 by (intro mult_mono) simp_all
    moreover have "0 \<le> (- T) * (?A - 1)"
      using False A_100 by (intro mult_nonneg_nonneg) simp_all
    ultimately show ?thesis
      by simp
  qed
  show ?thesis
    unfolding eq using TA D_100 [OF assms] B_100 by simp
qed

text \<open>
  C8, amended. At relative humidity 100 the result is close to the dry-bulb temperature
  without being equal to it: for every finite \<open>T\<close> in \<open>[-40, 60]\<close>, the result at \<open>(T, 100)\<close> is a finite
  number \<open>r\<close> with \<open>|r - T| \<le> 1/2\<close>.
\<close>

theorem calculateWetBulb_saturated:
  assumes "- 40 \<le> T" "T \<le> 60"
  shows "\<exists>r. calculateWetBulb (Fin T) (Fin 100) = Fin r \<and> \<bar>r - T\<bar> \<le> 1 / 2"
proof -
  have "calculateWetBulb (Fin T) (Fin 100) = Fin (stull T 100)"
    using assms by (intro calculateWetBulb_in_range) simp_all
  moreover have "\<bar>stull T 100 - T\<bar> \<le> 1 / 2"
  proof -
    have "- (1 / 2) \<le> stull T 100 - T" and "stull T 100 - T \<le> 1 / 2"
      using stull_100 [OF assms] by simp_all
    then show ?thesis
      by linarith
  qed
  ultimately show ?thesis
    by blast
qed

theorem calculateWetBulb_saturated_witness:
  "(- 40 \<le> (0::real) \<and> (0::real) \<le> 60)
   \<and> (\<exists>r. calculateWetBulb (Fin 0) (Fin 100) = Fin r \<and> \<bar>r - 0\<bar> \<le> 1 / 2)"
  using calculateWetBulb_saturated [of 0] by simp

text \<open>
  The claim as stated, that the result at \<open>(T, 100)\<close> is \<open>T\<close>, fails at \<open>T = 0\<close>: the
  result there is negative.
\<close>

theorem calculateWetBulb_0_100_not_0: "calculateWetBulb (Fin 0) (Fin 100) \<noteq> Fin 0"
proof -
  have "calculateWetBulb (Fin 0) (Fin 100) = Fin (stull 0 100)"
    by (rule calculateWetBulb_in_range) simp_all
  moreover have "stull 0 100 < 0"
  proof -
    have "stull 0 100 = (arctan (0 + 100) - arctan (98.323669)) + 3.91838 * arctan (2.3101) - 4.686035"
      by (simp add: stull_def W_100)
    then show ?thesis
      using D_100 [of 0] B_100 by simp
  qed
  ultimately show ?thesis
    by simp
qed

text \<open>Temperature 25 at the humidities 10, 50 and 90.\<close>

lemma A_step:
  fixes lo hi :: real
  assumes "0 \<le> y" "y \<le> hi" "hi \<le> lo" "lo \<le> x"
  shows "(lo - hi) / (1 + lo\<^sup>2) \<le> arctan x - arctan y"
proof -
  have "0 \<le> hi"
    using assms by simp
  then have "(lo - hi) / (1 + lo\<^sup>2) \<le> arctan lo - arctan hi"
    using assms(3) by (rule arctan_diff_ge)
  moreover have "arctan lo \<le> arctan x" and "arctan y \<le> arctan hi"
    using assms by (simp_all add: arctan_le_iff)
  ultimately show ?thesis
    by simp
qed

lemma A_90_50:
  "0.1 \<le> arctan (0.151977 * sqrt (98.313659)) - arctan (0.151977 * sqrt (58.313659))"
proof -
  have "9.9 \<le> sqrt (98.313659) \<and> sqrt (98.313659) \<le> (10 :: real)"
    by (rule sqrt_between) (simp_all add: power2_eq_square)
  then have x: "1.5 \<le> 0.151977 * sqrt (98.313659)"
    by simp
  have "7 \<le> sqrt (58.313659) \<and> sqrt (58.313659) \<le> (7.64 :: real)"
    by (rule sqrt_between) (simp_all add: power2_eq_square)
  then have y: "0 \<le> 0.151977 * sqrt (58.313659)" "0.151977 * sqrt (58.313659) \<le> 1.17"
    by simp_all
  have "(1.5 - 1.17) / (1 + 1.5\<^sup>2)
      \<le> arctan (0.151977 * sqrt (98.313659)) - arctan (0.151977 * sqrt (58.313659))"
    by (rule A_step [OF y _ x]) simp
  then show ?thesis
    by (simp add: power2_eq_square)
qed

lemma A_50_10:
  "0.2 \<le> arctan (0.151977 * sqrt (58.313659)) - arctan (0.151977 * sqrt (18.313659))"
proof -
  have "7.63 \<le> sqrt (58.313659) \<and> sqrt (58.313659) \<le> (8 :: real)"
    by (rule sqrt_between) (simp_all add: power2_eq_square)
  then have x: "1.15 \<le> 0.151977 * sqrt (58.313659)"
    by simp
  have "4 \<le> sqrt (18.313659) \<and> sqrt (18.313659) \<le> (4.28 :: real)"
    by (rule sqrt_between) (simp_all add: power2_eq_square)
  then have y: "0 \<le> 0.151977 * sqrt (18.313659)" "0.151977 * sqrt (18.313659) \<le> 0.66"
    by simp_all
  have "(1.15 - 0.66) / (1 + 1.15\<^sup>2)
      \<le> arctan (0.151977 * sqrt (58.313659)) - arctan (0.151977 * sqrt (18.313659))"
    by (rule A_step [OF y _ x]) simp
  then show ?thesis
    by (simp add: power2_eq_square)
qed

lemma D_25:
  "0 \<le> arctan (115 :: real) - arctan (88.323669)"
  "0 \<le> arctan (75 :: real) - arctan (48.323669)"
  "arctan (75 :: real) - arctan (48.323669) \<le> 0.012"
  "arctan (35 :: real) - arctan (8.323669) \<le> 0.4"
proof -
  show "0 \<le> arctan (115 :: real) - arctan (88.323669)"
    and "0 \<le> arctan (75 :: real) - arctan (48.323669)"
    by (simp_all add: arctan_le_iff)
  have "arctan (75 :: real) - arctan (48.323669) \<le> (75 - 48.323669) / (1 + (48.323669)\<^sup>2)"
    by (rule arctan_diff_le) simp_all
  then show "arctan (75 :: real) - arctan (48.323669) \<le> 0.012"
    by (simp add: power2_eq_square)
  have "arctan (35 :: real) - arctan (8.323669) \<le> (35 - 8.323669) / (1 + (8.323669)\<^sup>2)"
    by (rule arctan_diff_le) simp_all
  then show "arctan (35 :: real) - arctan (8.323669) \<le> 0.4"
    by (simp add: power2_eq_square)
qed

lemma P_mono:
  fixes h k :: real
  assumes "0 \<le> h" "h \<le> k"
  shows "h powr (3 / 2) * arctan (0.023101 * h) \<le> k powr (3 / 2) * arctan (0.023101 * k)"
proof (rule mult_mono)
  show "h powr (3 / 2) \<le> k powr (3 / 2)"
    using assms by (intro powr_mono2) simp_all
  show "arctan (0.023101 * h) \<le> arctan (0.023101 * k)"
    using assms by (simp add: arctan_le_iff)
  show "0 \<le> k powr (3 / 2)"
    by simp
  show "0 \<le> arctan (0.023101 * h)"
    using assms by (simp add: zero_le_arctan_iff)
qed

lemma stull_25_ordered: "stull 25 10 \<le> stull 25 50 \<and> stull 25 50 \<le> stull 25 90"
proof -
  let ?A = "\<lambda>h::real. arctan (0.151977 * sqrt (h + 8.313659))"
  let ?D = "\<lambda>h::real. arctan (25 + h) - arctan (h - 1.676331)"
  let ?P = "\<lambda>h::real. h powr (3 / 2) * arctan (0.023101 * h)"
  have eq: "stull 25 h = 25 * ?A h + ?D h + 0.00391838 * ?P h - 4.686035" for h
    by (simp add: stull_def)
  have P: "?P 10 \<le> ?P 50" "?P 50 \<le> ?P 90"
    by (rule P_mono; simp)+
  have A: "0.1 \<le> ?A 90 - ?A 50" "0.2 \<le> ?A 50 - ?A 10"
    using A_90_50 A_50_10 by simp_all
  have D: "0 \<le> ?D 90" "0 \<le> ?D 50" "?D 50 \<le> 0.012" "?D 10 \<le> 0.4"
    using D_25 by simp_all
  show ?thesis
    unfolding eq using P A D by simp
qed

text \<open>
  C6. At temperature 25 the results are ordered by humidity at the sampled points: the result at
  \<open>(25, 90)\<close> is at least the result at \<open>(25, 50)\<close>, which is at least the result at
  \<open>(25, 10)\<close>.
\<close>

theorem calculateWetBulb_25_ordered:
  "js_le (calculateWetBulb (Fin 25) (Fin 50)) (calculateWetBulb (Fin 25) (Fin 90))
   \<and> js_le (calculateWetBulb (Fin 25) (Fin 10)) (calculateWetBulb (Fin 25) (Fin 50))"
proof -
  have "calculateWetBulb (Fin 25) (Fin h) = Fin (stull 25 h)" if "0 \<le> h" "h \<le> 100" for h
    using that by (intro calculateWetBulb_in_range) simp_all
  from this [of 10] this [of 50] this [of 90] show ?thesis
    using stull_25_ordered by simp
qed

theorem calculateWetBulb_25_ordered_witness:
  "calculateWetBulb (Fin 25) (Fin 10) \<noteq> NaN
   \<and> \<not> js_less (calculateWetBulb (Fin 25) (Fin 90)) (calculateWetBulb (Fin 25) (Fin 50))"
proof -
  have "js_le x y \<Longrightarrow> x \<noteq> NaN \<and> \<not> js_less y x" for x y
    by (cases x; cases y) simp_all
  then show ?thesis
    using calculateWetBulb_25_ordered by blast
qed

section \<open>Rounding to binary64\<close>





























section \<open>The binary64 computation in range\<close>








section \<open>Monotonicity in the temperature\<close>











end
